theory Spec2Isabelle
  imports Main "HOL-Library.Word"
begin

unbundle bit_operations_syntax

section \<open>Values shared by the whole package\<close>

type_synonym byte = "8 word"

text \<open>
  Go's \<open>error\<close> values as they occur in the package: \<open>errors.New s\<close>, the sentinels
  \<open>io.EOF\<close> and \<open>io.ErrUnexpectedEOF\<close>, a \<open>net.Error\<close> (with the answer of its
  \<open>Timeout()\<close> method), and any other error of the transport.
\<close>

datatype error =
    ErrorString string
  | IoEOF
  | IoErrUnexpectedEOF
  | NetError bool
  | OtherError string

text \<open>What a goroutine can panic with: an explicit \<open>panic(v)\<close> or a run-time error.\<close>

datatype panic =
    PanicError error
  | PanicString string
  | SliceBoundsOutOfRange int int
  | NilPointerDereference

text \<open>
  The outcome of a Go function with results \<open>(v, err)\<close>: it returns a value with a nil
  error, returns a non-nil error, or panics.
\<close>

datatype 'a result = Ok 'a | Err error | Panic panic

section \<open>encoding/hex and encoding/binary, as the package uses them\<close>

definition hextable :: string where
  "hextable = ''0123456789abcdef''"

text \<open>\<open>hex.EncodeToString\<close>: \<open>dst[2i] = hextable[v >> 4]\<close>, \<open>dst[2i+1] = hextable[v & 0x0f]\<close>.\<close>

fun hex_EncodeToString :: "byte list \<Rightarrow> string" where
  "hex_EncodeToString [] = []"
| "hex_EncodeToString (v # vs) =
     hextable ! unat (drop_bit 4 v) # hextable ! unat (v AND 0x0f) # hex_EncodeToString vs"

text \<open>
  \<open>io.ReadFull\<close> on a \<open>bytes.Reader\<close> holding the unread bytes \<open>r\<close>: exactly \<open>n\<close> bytes
  and the rest of the reader, \<open>io.EOF\<close> when nothing is left, \<open>io.ErrUnexpectedEOF\<close>
  when fewer than \<open>n\<close> bytes are left (\<open>n\<close> is 4 or 2 below).
\<close>

definition io_ReadFull :: "byte list \<Rightarrow> nat \<Rightarrow> error + (byte list \<times> byte list)" where
  "io_ReadFull r n =
     (if n \<le> length r then Inr (take n r, drop n r)
      else if r = [] then Inl IoEOF
      else Inl IoErrUnexpectedEOF)"

text \<open>\<open>binary.BigEndian.Uint32\<close> and \<open>Uint16\<close> on a slice of 4 and of 2 bytes.\<close>

definition BigEndian_Uint32 :: "byte list \<Rightarrow> 32 word" where
  "BigEndian_Uint32 b =
     ucast (b ! 3) OR push_bit 8 (ucast (b ! 2)) OR push_bit 16 (ucast (b ! 1))
       OR push_bit 24 (ucast (b ! 0))"

definition BigEndian_Uint16 :: "byte list \<Rightarrow> 16 word" where
  "BigEndian_Uint16 b = ucast (b ! 1) OR push_bit 8 (ucast (b ! 0))"

text \<open>
  \<open>binary.Read(r, binary.BigEndian, &x)\<close> for \<open>x\<close> an \<open>int32\<close> and an \<open>int16\<close>: the
  unsigned big-endian value converted to the signed type of the same width. A signed
  \<open>w\<close>-bit integer is a \<open>w word\<close> holding its bits; \<open>sint\<close> is its value (two's
  complement), so Go's \<open>int(size)\<close> is \<open>sint size\<close>.
\<close>

definition binary_Read_int32 :: "byte list \<Rightarrow> error + (32 word \<times> byte list)" where
  "binary_Read_int32 r =
     (case io_ReadFull r 4 of
        Inl e \<Rightarrow> Inl e
      | Inr (bs, r') \<Rightarrow> Inr (BigEndian_Uint32 bs, r'))"

definition binary_Read_int16 :: "byte list \<Rightarrow> error + (16 word \<times> byte list)" where
  "binary_Read_int16 r =
     (case io_ReadFull r 2 of
        Inl e \<Rightarrow> Inl e
      | Inr (bs, r') \<Rightarrow> Inr (BigEndian_Uint16 bs, r'))"

text \<open>
  The slice expression \<open>a[low : high]\<close>: a run-time panic unless
  \<open>0 \<le> low \<le> high \<le> len a\<close>. (Go bounds \<open>high\<close> by the capacity; every use below
  has already checked \<open>high\<close> against the length.)
\<close>

definition slice :: "byte list \<Rightarrow> int \<Rightarrow> int \<Rightarrow> byte list result" where
  "slice a low high =
     (if 0 \<le> low \<and> low \<le> high \<and> high \<le> int (length a)
      then Ok (take (nat high - nat low) (drop (nat low) a))
      else Panic (SliceBoundsOutOfRange low high))"

section \<open>Feedback records\<close>

text \<open>\<open>Time_t\<close> is an \<open>int32\<close>: its value is \<open>sint (Time_t m)\<close>.\<close>

record ApnsFeedbackMessage =
  Time_t :: "32 word"
  DeviceToken :: string

definition parseAppleFeedbackMessage :: "byte list \<Rightarrow> ApnsFeedbackMessage result" where
  "parseAppleFeedbackMessage readb =
     (if length readb < 6 then Err (ErrorString ''Not enough data in slice'')
      else
        case binary_Read_int32 readb of
          Inl e \<Rightarrow> Err e
        | Inr (t, r1) \<Rightarrow>
            (case binary_Read_int16 r1 of
               Inl e \<Rightarrow> Err e
             | Inr (size', r2) \<Rightarrow>
                 if 6 + sint size' > int (length readb)
                 then Err (ErrorString
                   ''The Message size for the DeviceToken is bigger than the given buffer'')
                 else
                   (case slice readb 6 (6 + sint size') of
                      Ok tok \<Rightarrow> Ok \<lparr>Time_t = t, DeviceToken = hex_EncodeToString tok\<rparr>
                    | Err e \<Rightarrow> Err e
                    | Panic p \<Rightarrow> Panic p)))"

section \<open>Outbound packets\<close>

text \<open>
  \<open>binary.BigEndian.PutUint32\<close> and \<open>PutUint16\<close>: \<open>b[0] = byte(v >> 24)\<close>, ...,
  \<open>b[3] = byte(v)\<close>.
\<close>

definition BigEndian_PutUint32 :: "32 word \<Rightarrow> byte list" where
  "BigEndian_PutUint32 v =
     [ucast (drop_bit 24 v), ucast (drop_bit 16 v), ucast (drop_bit 8 v), ucast v]"

definition BigEndian_PutUint16 :: "16 word \<Rightarrow> byte list" where
  "BigEndian_PutUint16 v = [ucast (drop_bit 8 v), ucast v]"

text \<open>
  The \<open>interface{}\<close> values handed to \<open>bwrite\<close>. \<open>binary.Write\<close> encodes the
  fixed-size ones and byte slices; for any other dynamic type it returns an error.
\<close>

datatype gvalue =
    Uint8 byte
  | Uint16 "16 word"
  | Uint32 "32 word"
  | Bytes "byte list"
  | Unsupported string

text \<open>\<open>binary.Write(w, binary.BigEndian, v)\<close> on a \<open>bytes.Buffer\<close> holding \<open>w\<close>.\<close>

fun binary_Write :: "byte list \<Rightarrow> gvalue \<Rightarrow> error option \<times> byte list" where
  "binary_Write w (Uint8 v) = (None, w @ [v])"
| "binary_Write w (Uint16 v) = (None, w @ BigEndian_PutUint16 v)"
| "binary_Write w (Uint32 v) = (None, w @ BigEndian_PutUint32 v)"
| "binary_Write w (Bytes bs) = (None, w @ bs)"
| "binary_Write w (Unsupported t) =
     (Some (ErrorString (''binary.Write: invalid type '' @ t)), w)"

fun bwrite :: "byte list \<Rightarrow> gvalue list \<Rightarrow> error option \<times> byte list" where
  "bwrite w [] = (None, w)"
| "bwrite w (v # values) =
     (case binary_Write w v of
        (Some err, w') \<Rightarrow> (Some err, w')
      | (None, w') \<Rightarrow> bwrite w' values)"

text \<open>
  \<open>uint32(time.Now().In(time.UTC).Add(expiration).Unix())\<close>, with the clock reading
  \<open>now\<close> and the duration both in nanoseconds: whole seconds since the epoch, truncated
  to 32 bits.
\<close>

definition expirationTime :: "int \<Rightarrow> int \<Rightarrow> 32 word" where
  "expirationTime now expiration = word_of_int ((now + expiration) div 1000000000)"

definition createCommandOnePacket ::
    "int \<Rightarrow> 32 word \<Rightarrow> int \<Rightarrow> byte list \<Rightarrow> byte list \<Rightarrow> byte list result" where
  "createCommandOnePacket now transactionId expiration token payload =
     (case bwrite []
             [Uint8 1,
              Uint32 transactionId,
              Uint32 (expirationTime now expiration),
              Uint16 (of_nat (length token)),
              Bytes token,
              Uint16 (of_nat (length payload)),
              Bytes payload] of
        (Some err, buffer) \<Rightarrow> Err err
      | (None, buffer) \<Rightarrow> Ok buffer)"

definition createCommandZeroPacket ::
    "32 word \<Rightarrow> int \<Rightarrow> byte list \<Rightarrow> byte list \<Rightarrow> byte list result" where
  "createCommandZeroPacket transactionId expiration token payload =
     (case bwrite []
             [Uint8 0,
              Uint16 (of_nat (length token)),
              Bytes token,
              Uint16 (of_nat (length payload)),
              Bytes payload] of
        (Some err, buffer) \<Rightarrow> Err err
      | (None, buffer) \<Rightarrow> Ok buffer)"

subsection \<open>The wire formats as the protocol states them\<close>

text \<open>
  An unsigned integer in big-endian order, most significant byte first, written with
  division and remainder: the \<open>u32\<close> and \<open>u16\<close> fields of the wire formats.
\<close>

definition u32_be :: "nat \<Rightarrow> byte list" where
  "u32_be v =
     [of_nat (v div 16777216 mod 256), of_nat (v div 65536 mod 256),
      of_nat (v div 256 mod 256), of_nat (v mod 256)]"

definition u16_be :: "nat \<Rightarrow> byte list" where
  "u16_be v = [of_nat (v div 256 mod 256), of_nat (v mod 256)]"

text \<open>The number a byte string denotes in big-endian order.\<close>

definition be_value :: "byte list \<Rightarrow> nat" where
  "be_value bs = foldl (\<lambda>acc b. acc * 256 + unat b) 0 bs"

text \<open>
  The outbound extended packet:
  \<open>u8(1) | u32 transactionId | u32 expirationEpoch | u16 tokenLen | token | u16 payloadLen | payload\<close>.
\<close>

definition extended_push_wire ::
    "32 word \<Rightarrow> 32 word \<Rightarrow> byte list \<Rightarrow> byte list \<Rightarrow> byte list" where
  "extended_push_wire transactionId expirationEpoch token payload =
     [1] @ u32_be (unat transactionId) @ u32_be (unat expirationEpoch)
       @ u16_be (length token) @ token @ u16_be (length payload) @ payload"

text \<open>The inbound feedback record: \<open>u32 timestampEpoch | u16 tokenLen | token\<close>.\<close>

definition feedback_wire :: "32 word \<Rightarrow> byte list \<Rightarrow> byte list" where
  "feedback_wire timestamp token = u32_be (unat timestamp) @ u16_be (length token) @ token"

text \<open>Lowercase hexadecimal, two digits for each byte, written with division and remainder.\<close>

definition hex_digit :: "nat \<Rightarrow> char" where
  "hex_digit d = (if d < 10 then ''0123456789'' ! d else ''abcdef'' ! (d - 10))"

definition lowercase_hex :: "byte list \<Rightarrow> string" where
  "lowercase_hex bs = concat (map (\<lambda>b. [hex_digit (unat b div 16), hex_digit (unat b mod 16)]) bs)"

section \<open>The connection and its environment\<close>

text \<open>
  A \<open>*tls.Conn\<close> is a handle; the nil pointer is \<open>None\<close>. Everything the client does
  to the outside world is recorded as an event, newest first. The handle that a
  successful dial creates is the number of events recorded before it, so it is fresh.
\<close>

type_synonym handle = nat

datatype event =
    Dial "error option"
  | Handshake handle "error option"
  | Close handle "error option"
  | Write handle "byte list" "error option"
  | SetReadDeadline handle "int option"
  | Read handle "byte list" "error option"
  | Sleep int
  | ChanSend ApnsFeedbackMessage
  | ChanClose

type_synonym trace = "event list"

text \<open>
  The environment (network, remote peer, clock) answers each call; its answer may
  depend on everything that happened before. \<open>read_reply\<close> gives the bytes the peer
  delivers and the error of the read; \<open>now_reply\<close> is the clock in nanoseconds since
  the epoch.
\<close>

record env =
  dial_reply :: "trace \<Rightarrow> error option"
  handshake_reply :: "trace \<Rightarrow> error option"
  close_reply :: "trace \<Rightarrow> error option"
  write_reply :: "trace \<Rightarrow> error option"
  read_reply :: "trace \<Rightarrow> byte list \<times> error option"
  now_reply :: "trace \<Rightarrow> int"

text \<open>
  The fields of \<open>ApnsConn\<close> that the operations read or write. \<open>tls_cfg\<close> and
  \<open>endpoint\<close> never change after construction and belong to the environment; the
  mutex \<open>mu\<close> serialises calls, which here run one after the other.
\<close>

record ApnsConn =
  tlsconn :: "handle option"
  ReadTimeout :: int
  transactionId :: "32 word"
  MAX_PAYLOAD_SIZE :: int
  connected :: bool

text \<open>\<open>NewClient\<close> after the certificate has been loaded.\<close>

definition NewClient :: ApnsConn where
  "NewClient =
     \<lparr>tlsconn = None, ReadTimeout = 150 * 1000000, transactionId = 0,
      MAX_PAYLOAD_SIZE = 256, connected = False\<rparr>"

definition shutdown :: "env \<Rightarrow> trace \<times> ApnsConn \<Rightarrow> error option \<times> trace \<times> ApnsConn" where
  "shutdown E s =
     (case s of (w, client) \<Rightarrow>
        (case tlsconn client of
           None \<Rightarrow> (None, w, client)
         | Some h \<Rightarrow>
             (close_reply E w, Close h (close_reply E w) # w, client\<lparr>connected := False\<rparr>)))"

definition connect :: "env \<Rightarrow> trace \<times> ApnsConn \<Rightarrow> error option \<times> trace \<times> ApnsConn" where
  "connect E s =
     (case s of (w, client) \<Rightarrow>
        if connected client then (None, w, client)
        else
          (case (if tlsconn client \<noteq> None then snd (shutdown E (w, client)) else (w, client)) of
             (w1, client1) \<Rightarrow>
               (case dial_reply E w1 of
                  Some err \<Rightarrow> (Some err, Dial (Some err) # w1, client1)
                | None \<Rightarrow>
                    (let h = length w1;
                         w2 = Dial None # w1;
                         client2 = client1\<lparr>tlsconn := Some h\<rparr>;
                         err = handshake_reply E w2;
                         w3 = Handshake h err # w2
                     in (err, w3, if err = None then client2\<lparr>connected := True\<rparr> else client2)))))"

section \<open>Sending a payload\<close>

text \<open>The table \<open>errText\<close>; indexing a Go map with a missing key gives the empty string.\<close>

definition errText :: "byte \<rightharpoonup> string" where
  "errText = map_of
     [(0, ''No errors encountered''),
      (1, ''Processing Errors''),
      (2, ''Missing Device Token''),
      (3, ''Missing Topic''),
      (4, ''Missing Payload''),
      (5, ''Invalid Token Size''),
      (6, ''Invalid Topic Size''),
      (7, ''Invalid Payload Size''),
      (8, ''Invalid Token''),
      (255, ''None (Unknown)'')]"

definition errText_index :: "byte \<Rightarrow> string" where
  "errText_index status = (case errText status of Some s \<Rightarrow> s | None \<Rightarrow> [])"

text \<open>Decimal digits of an integer, as \<open>fmt\<close> prints an \<open>int\<close>.\<close>

fun decimal :: "nat \<Rightarrow> string" where
  "decimal n =
     (if n < 10 then [''0123456789'' ! n]
      else decimal (n div 10) @ [''0123456789'' ! (n mod 10)])"

declare decimal.simps [simp del]

definition fmt_int :: "int \<Rightarrow> string" where
  "fmt_int i = (if i < 0 then CHR ''-'' # decimal (nat (- i)) else decimal (nat i))"

text \<open>
  \<open>fmt.Sprintf("The payload exceeds maximum allowed", client.MAX_PAYLOAD_SIZE)\<close>: the
  format has no verb, so \<open>fmt\<close> appends the unused argument as \<open>%!(EXTRA int=...)\<close>.
\<close>

definition payload_too_large :: "int \<Rightarrow> error" where
  "payload_too_large max_size =
     ErrorString (''The payload exceeds maximum allowed%!(EXTRA int='' @ fmt_int max_size @ '')'')"

text \<open>\<open>err.(net.Error)\<close> succeeds and \<open>Timeout()\<close> is true.\<close>

fun is_timeout :: "error \<Rightarrow> bool" where
  "is_timeout (NetError t) = t"
| "is_timeout _ = False"

text \<open>
  The end of \<open>SendPayload\<close>, after a read without error of \<open>n = length readb\<close> bytes
  into the 6-byte array (\<open>readb\<close> is \<open>readb[:n]\<close>): the switch on the status byte.
\<close>

definition response_status :: "byte list \<Rightarrow> unit result" where
  "response_status readb =
     (if length readb > 1 then
        (let status = readb ! 1 in
         if status = 0 then Ok ()
         else if status \<in> {1, 2, 3, 4, 5, 6, 7, 8, 255}
         then Err (ErrorString (errText_index status))
         else Err (ErrorString (''Unknown error code '' @ hex_EncodeToString readb @ '' '')))
      else Ok ())"

text \<open>
  \<open>SendPayload\<close> between the two \<open>defer\<close> statements and the return: connect, count
  the transaction, build the packet, write it, wait for an error response. Calling
  \<open>Write\<close> through a nil \<open>tlsconn\<close> is a nil-pointer panic.
\<close>

definition SendPayload_body ::
    "env \<Rightarrow> byte list \<Rightarrow> byte list \<Rightarrow> int \<Rightarrow> trace \<times> ApnsConn \<Rightarrow>
     unit result \<times> trace \<times> ApnsConn" where
  "SendPayload_body E token payload expiration s =
     (case connect E s of
        (Some err, w1, client1) \<Rightarrow> (Err err, w1, client1)
      | (None, w1, client1) \<Rightarrow>
          (let client2 = client1\<lparr>transactionId := transactionId client1 + 1\<rparr> in
           case createCommandOnePacket (now_reply E w1) (transactionId client2)
                  expiration token payload of
             Err err \<Rightarrow> (Err err, w1, client2)
           | Panic p \<Rightarrow> (Panic p, w1, client2)
           | Ok pkt \<Rightarrow>
               (case tlsconn client2 of
                  None \<Rightarrow> (Panic NilPointerDereference, w1, client2)
                | Some h \<Rightarrow>
                    (let werr = write_reply E w1;
                         w2 = Write h pkt werr # w1
                     in case werr of
                          Some err \<Rightarrow> (Err err, w2, client2)
                        | None \<Rightarrow>
                            (let w3 = SetReadDeadline h
                                        (Some (now_reply E w2 + ReadTimeout client2)) # w2;
                                 readb = take 6 (fst (read_reply E w3));
                                 rerr = snd (read_reply E w3);
                                 w4 = Read h readb rerr # w3
                             in case rerr of
                                  Some err \<Rightarrow>
                                    if is_timeout err then (Ok (), w4, client2)
                                    else (Err err, w4, client2)
                                | None \<Rightarrow> (response_status readb, w4, client2))))))"

text \<open>
  \<open>SendPayload\<close>: the size check returns before anything is deferred; afterwards the
  deferred function calls \<open>shutdown\<close> whenever the result \<open>err\<close> is not nil. (When
  \<open>Write\<close> panics \<open>err\<close> is still nil, so the deferred function does nothing.)
\<close>

definition SendPayload ::
    "env \<Rightarrow> byte list \<Rightarrow> byte list \<Rightarrow> int \<Rightarrow> trace \<times> ApnsConn \<Rightarrow>
     unit result \<times> trace \<times> ApnsConn" where
  "SendPayload E token payload expiration s =
     (if int (length payload) > MAX_PAYLOAD_SIZE (snd s)
      then (Err (payload_too_large (MAX_PAYLOAD_SIZE (snd s))), s)
      else
        (case SendPayload_body E token payload expiration s of
           (Err err, s1) \<Rightarrow> (Err err, snd (shutdown E s1))
         | (r, s1) \<Rightarrow> (r, s1)))"

section \<open>The feedback poller\<close>

text \<open>
  The retry loop after \<open>io.EOF\<close>, from \<open>count\<close> on: \<open>None\<close> when the loop is left (by
  \<open>break\<close> after a reconnect or because \<open>count\<close> reached 3), \<open>Some p\<close> when it panics.
  The last component is the connection the buffered reader wraps.
\<close>

function reconnect ::
    "env \<Rightarrow> nat \<Rightarrow> trace \<times> ApnsConn \<times> handle \<Rightarrow> panic option \<times> trace \<times> ApnsConn \<times> handle" where
  "reconnect E count (w, client, rd) =
     (if count < 3 then
        (case shutdown E (w, client) of
           (err, w1, client1) \<Rightarrow>
             (case connect E (Sleep 30 # w1, client1) of
                (Some err', w2, client2) \<Rightarrow>
                  if count = 3
                  then (Some (PanicString
                          ''Failed reconnecting more than 3 times to the feedback service''),
                        w2, client2, rd)
                  else reconnect E (count + 1) (w2, client2, rd)
              | (None, w2, client2) \<Rightarrow>
                  (case tlsconn client2 of
                     None \<Rightarrow> (Some NilPointerDereference, w2, client2, rd)
                   | Some h \<Rightarrow> (None, SetReadDeadline h None # w2, client2, h))))
      else (None, w, client, rd))"
  by pat_completeness auto
termination
  by (relation "measure (\<lambda>(E, count, s). 3 - count)") auto

declare reconnect.simps [simp del]

text \<open>
  The goroutine's \<open>for\<close> loop, run for at most \<open>fuel\<close> iterations: \<open>Some p\<close> when it
  panics, \<open>None\<close> when it is still running after \<open>fuel\<close> reads. A read fills at most the
  38 bytes of \<open>readb\<close>.
\<close>

fun listen :: "nat \<Rightarrow> env \<Rightarrow> trace \<times> ApnsConn \<times> handle \<Rightarrow> panic option \<times> trace \<times> ApnsConn" where
  "listen 0 E (w, client, rd) = (None, w, client)"
| "listen (Suc fuel) E (w, client, rd) =
     (let readb = take 38 (fst (read_reply E w));
          err = snd (read_reply E w);
          w1 = Read rd readb err # w
      in case err of
           Some e \<Rightarrow>
             if e = IoEOF then
               (case reconnect E 0 (w1, client, rd) of
                  (Some p, w2, client2, rd2) \<Rightarrow> (Some p, w2, client2)
                | (None, w2, client2, rd2) \<Rightarrow> listen fuel E (w2, client2, rd2))
             else (Some (PanicError e), ChanClose # w1, client)
         | None \<Rightarrow>
             (case parseAppleFeedbackMessage readb of
                Err e \<Rightarrow> (Some (PanicError e), ChanClose # w1, client)
              | Panic p \<Rightarrow> (Some p, w1, client)
              | Ok msg \<Rightarrow> listen fuel E (ChanSend msg # w1, client, rd)))"

definition StartListening :: "nat \<Rightarrow> env \<Rightarrow> trace \<times> ApnsConn \<Rightarrow> panic option \<times> trace \<times> ApnsConn" where
  "StartListening fuel E s =
     (case connect E s of
        (Some err, w1, client1) \<Rightarrow> (Some (PanicError err), w1, client1)
      | (None, w1, client1) \<Rightarrow>
          (case tlsconn client1 of
             None \<Rightarrow> (Some NilPointerDereference, w1, client1)
           | Some h \<Rightarrow> listen fuel E (SetReadDeadline h None # w1, client1, h)))"

section \<open>Observing a run\<close>

fun is_Close :: "event \<Rightarrow> bool" where
  "is_Close (Close h r) = True"
| "is_Close _ = False"

fun is_Read :: "event \<Rightarrow> bool" where
  "is_Read (Read h bs r) = True"
| "is_Read _ = False"

fun is_ChanSend :: "event \<Rightarrow> bool" where
  "is_ChanSend (ChanSend m) = True"
| "is_ChanSend _ = False"

fun is_Dial :: "event \<Rightarrow> bool" where
  "is_Dial (Dial r) = True"
| "is_Dial _ = False"

definition count_reads :: "trace \<Rightarrow> nat" where
  "count_reads w = length (filter is_Read w)"

definition count_sends :: "trace \<Rightarrow> nat" where
  "count_sends w = length (filter is_ChanSend w)"

definition count_dials :: "trace \<Rightarrow> nat" where
  "count_dials w = length (filter is_Dial w)"

text \<open>The handshake on \<open>h\<close> has succeeded, and the client has called \<open>Close\<close> on \<open>h\<close>.\<close>

definition handshake_succeeded :: "handle \<Rightarrow> trace \<Rightarrow> bool" where
  "handshake_succeeded h w = (Handshake h None \<in> set w)"

fun closes :: "handle \<Rightarrow> event \<Rightarrow> bool" where
  "closes h (Close h' r) = (h' = h)"
| "closes h _ = False"

definition closed :: "handle \<Rightarrow> trace \<Rightarrow> bool" where
  "closed h w = list_ex (closes h) w"

text \<open>
  The states a client can be in: freshly constructed, then any sequence of
  \<open>connect\<close>, \<open>shutdown\<close> and \<open>SendPayload\<close>; the caller may also assign the exported
  fields \<open>ReadTimeout\<close> and \<open>MAX_PAYLOAD_SIZE\<close>.
\<close>

inductive reachable :: "env \<Rightarrow> trace \<times> ApnsConn \<Rightarrow> bool" for E :: env where
  fresh: "reachable E ([], NewClient)"
| by_connect: "reachable E s \<Longrightarrow> reachable E (snd (connect E s))"
| by_shutdown: "reachable E s \<Longrightarrow> reachable E (snd (shutdown E s))"
| by_SendPayload:
    "reachable E s \<Longrightarrow> reachable E (snd (SendPayload E token payload expiration s))"
| by_configure:
    "reachable E (w, client) \<Longrightarrow>
     reachable E (w, client\<lparr>ReadTimeout := t, MAX_PAYLOAD_SIZE := m\<rparr>)"

text \<open>
  The invariant as the data model words it: the flag is set exactly when a stream
  handle is present and its handshake has succeeded.
\<close>

definition flag_iff_handle_and_handshake :: "trace \<times> ApnsConn \<Rightarrow> bool" where
  "flag_iff_handle_and_handshake s =
     (connected (snd s) =
        (case tlsconn (snd s) of None \<Rightarrow> False | Some h \<Rightarrow> handshake_succeeded h (fst s)))"

text \<open>
  The same with the handle's closing taken into account: \<open>shutdown\<close> closes the handle
  but leaves it in \<open>tlsconn\<close>.
\<close>

definition flag_iff_open_handle :: "trace \<times> ApnsConn \<Rightarrow> bool" where
  "flag_iff_open_handle s =
     (connected (snd s) =
        (case tlsconn (snd s) of
           None \<Rightarrow> False
         | Some h \<Rightarrow> handshake_succeeded h (fst s) \<and> \<not> closed h (fst s)))"

section \<open>Environments for concrete runs\<close>

text \<open>
  A peer whose handshakes, writes and closes succeed, with the clock at the epoch;
  \<open>d\<close> answers the dials and \<open>r\<close> the reads.
\<close>

definition peer :: "(trace \<Rightarrow> error option) \<Rightarrow> (trace \<Rightarrow> byte list \<times> error option) \<Rightarrow> env" where
  "peer d r =
     \<lparr>dial_reply = d, handshake_reply = (\<lambda>w. None), close_reply = (\<lambda>w. None),
      write_reply = (\<lambda>w. None), read_reply = r, now_reply = (\<lambda>w. 0)\<rparr>"

text \<open>The peer accepts every packet: it sends nothing and each read times out.\<close>

definition env_silent :: env where
  "env_silent = peer (\<lambda>w. None) (\<lambda>w. ([], Some (NetError True)))"

text \<open>The peer answers every packet with the error response of status \<open>st\<close>.\<close>

definition env_reject :: "byte \<Rightarrow> env" where
  "env_reject st = peer (\<lambda>w. None) (\<lambda>w. ([8, st, 0, 0, 0, 1], None))"

text \<open>
  The first dial succeeds; then the peer closes the stream (every read is \<open>io.EOF\<close>)
  and refuses every further dial.
\<close>

definition env_eof :: env where
  "env_eof =
     peer (\<lambda>w. if w = [] then None else Some (OtherError ''connection refused''))
          (\<lambda>w. ([], Some IoEOF))"

text \<open>The peer delivers the same bytes at every read.\<close>

definition env_feed :: "byte list \<Rightarrow> env" where
  "env_feed bs = peer (\<lambda>w. None) (\<lambda>w. (bs, None))"

text \<open>Every handshake fails.\<close>

definition env_no_handshake :: env where
  "env_no_handshake =
     (peer (\<lambda>w. None) (\<lambda>w. ([], Some IoEOF)))
       \<lparr>handshake_reply := (\<lambda>w. Some (OtherError ''bad certificate''))\<rparr>"

section \<open>Well-formed client states\<close>

text \<open>The handle a \<open>Handshake\<close> or \<open>Close\<close> event is about.\<close>

fun event_handle :: "event \<Rightarrow> handle option" where
  "event_handle (Handshake h r) = Some h"
| "event_handle (Close h r) = Some h"
| "event_handle _ = None"

text \<open>
  Handles are numbered by the length of the trace at their dial, so every handle that
  occurs in the trace or in the client is smaller than the length of the trace, and
  the next dial creates a handle that has neither been shaken nor closed.
\<close>

definition handles_below :: "trace \<times> ApnsConn \<Rightarrow> bool" where
  "handles_below s =
     ((\<forall>ev \<in> set (fst s). case event_handle ev of None \<Rightarrow> True | Some h \<Rightarrow> h < length (fst s))
      \<and> (case tlsconn (snd s) of None \<Rightarrow> True | Some h \<Rightarrow> h < length (fst s)))"

definition state_inv :: "trace \<times> ApnsConn \<Rightarrow> bool" where
  "state_inv s = (flag_iff_open_handle s \<and> handles_below s)"

section \<open>Facts about the codec\<close>

lemma byte_of_nat_mod: "(of_nat (n mod 256) :: byte) = of_nat n"
  by (simp add: word_eq_iff_unsigned [where ?'a = nat] unat_of_nat flip: take_bit_eq_mod)

lemma byte_of_shift32: "(ucast (drop_bit n (v::32 word)) :: byte) = of_nat (unat v div 2 ^ n)"
  by (metis drop_bit_eq_div of_nat_unat unat_drop_bit_eq)

lemma byte_of_shift16: "(ucast (drop_bit n (v::16 word)) :: byte) = of_nat (unat v div 2 ^ n)"
  by (metis drop_bit_eq_div of_nat_unat unat_drop_bit_eq)

lemma PutUint32_u32_be: "BigEndian_PutUint32 v = u32_be (unat v)"
  using byte_of_shift32 [of 24 v] byte_of_shift32 [of 16 v] byte_of_shift32 [of 8 v]
  by (simp add: BigEndian_PutUint32_def u32_be_def byte_of_nat_mod)

lemma PutUint16_u16_be: "BigEndian_PutUint16 v = u16_be (unat v)"
  using byte_of_shift16 [of 8 v]
  by (simp add: BigEndian_PutUint16_def u16_be_def byte_of_nat_mod)

lemma mod_mult_div: "0 < a \<Longrightarrow> (n mod (a * b)) div a = n div a mod (b::nat)"
  by (simp add: mod_mult2_eq)

lemma mod_mult_mod: "(n mod (a * b)) mod a = n mod (a::nat)"
  by (simp add: mod_mod_cancel)

lemma u16_be_mod: "u16_be (n mod 65536) = u16_be n"
proof -
  have "(n mod (256 * 256)) div 256 = n div 256 mod 256" by (rule mod_mult_div) simp
  moreover have "n mod (256 * 256) mod 256 = n mod 256" by (rule mod_mult_mod)
  ultimately show ?thesis by (simp add: u16_be_def)
qed

lemma PutUint16_of_nat: "BigEndian_PutUint16 (of_nat n) = u16_be n"
  by (simp add: PutUint16_u16_be unat_of_nat u16_be_mod)

text \<open>The fields really are big-endian: the bytes denote the number, most significant first.\<close>

lemma be_value_u16_be: "be_value (u16_be v) = v mod 65536"
proof -
  have "v mod (256 * 256) = 256 * (v div 256 mod 256) + v mod 256"
    by (rule mod_mult2_eq)
  then show ?thesis
    by (simp add: be_value_def u16_be_def unat_of_nat)
qed

lemma be_value_u32_be: "be_value (u32_be v) = v mod 4294967296"
proof -
  have a: "v mod (256 * 16777216) = 256 * (v div 256 mod 16777216) + v mod 256"
    by (rule mod_mult2_eq)
  have b: "(v div 256) mod (256 * 65536) = 256 * (v div 256 div 256 mod 65536) + v div 256 mod 256"
    by (rule mod_mult2_eq)
  have c: "(v div 65536) mod (256 * 256) = 256 * (v div 65536 div 256 mod 256) + v div 65536 mod 256"
    by (rule mod_mult2_eq)
  have d: "v div 256 div 256 = v div 65536" "v div 65536 div 256 = v div 16777216"
    by (simp_all add: div_mult2_eq [symmetric])
  show ?thesis
    using a b c d
    by (simp add: be_value_def u32_be_def unat_of_nat)
qed

lemma Uint32_PutUint32: "BigEndian_Uint32 (BigEndian_PutUint32 v) = v"
  unfolding BigEndian_Uint32_def BigEndian_PutUint32_def
  apply (rule bit_word_eqI)
  apply (simp add: bit_simps cong: conj_cong)
  apply arith
  done

lemma Uint16_PutUint16: "BigEndian_Uint16 (BigEndian_PutUint16 v) = v"
  unfolding BigEndian_Uint16_def BigEndian_PutUint16_def
  apply (rule bit_word_eqI)
  apply (simp add: bit_simps cong: conj_cong)
  apply arith
  done

lemma Uint32_u32_be: "BigEndian_Uint32 (u32_be (unat v)) = v"
  by (simp add: Uint32_PutUint32 flip: PutUint32_u32_be)

lemma Uint16_u16_be: "BigEndian_Uint16 (u16_be n) = of_nat n"
  by (simp add: Uint16_PutUint16 flip: PutUint16_of_nat)

lemma length_u32_be: "length (u32_be v) = 4"
  by (simp add: u32_be_def)

lemma length_u16_be: "length (u16_be v) = 2"
  by (simp add: u16_be_def)

lemma hextable_nth: "d < 16 \<Longrightarrow> hextable ! d = hex_digit d"
proof -
  assume "d < 16"
  then have "d = 0 \<or> d = 1 \<or> d = 2 \<or> d = 3 \<or> d = 4 \<or> d = 5 \<or> d = 6 \<or> d = 7
    \<or> d = 8 \<or> d = 9 \<or> d = 10 \<or> d = 11 \<or> d = 12 \<or> d = 13 \<or> d = 14 \<or> d = 15"
    by arith
  then show ?thesis
    by (elim disjE) (simp_all add: hextable_def hex_digit_def)
qed

lemma unat_high_nibble: "unat (drop_bit 4 (v :: byte)) = unat v div 16"
  by (simp add: unat_drop_bit_eq drop_bit_eq_div unat_div)

lemma unat_low_nibble: "unat ((v :: byte) AND 0x0f) = unat v mod 16"
proof -
  have "(15 :: byte) = mask 4" by (simp add: mask_eq_exp_minus_1)
  then have "v AND 0x0f = take_bit 4 v" by (simp add: take_bit_eq_mask)
  then show ?thesis by (simp add: unsigned_take_bit_eq take_bit_eq_mod unat_mod)
qed

lemma hex_EncodeToString_lowercase: "hex_EncodeToString bs = lowercase_hex bs"
proof (induction bs)
  case Nil
  show ?case by (simp add: lowercase_hex_def)
next
  case (Cons a bs)
  have "unat a div 16 < 16" using unsigned_less [of a, where ?'a = nat] by simp
  moreover have "unat a mod 16 < 16" by simp
  ultimately show ?case using Cons
    by (simp add: lowercase_hex_def hextable_nth unat_high_nibble unat_low_nibble)
qed

lemma sint_of_nat_16: "sint (of_nat n :: 16 word) = (int n + 32768) mod 65536 - 32768"
  by (simp add: signed_of_nat signed_take_bit_eq_take_bit_shift take_bit_eq_mod)

lemma sint_of_nat_16_small:
  assumes "n < 32768"
  shows "sint (of_nat n :: 16 word) = int n"
proof -
  have "0 \<le> int n + 32768" "int n + 32768 < 65536" using assms by simp_all
  then have "(int n + 32768) mod 65536 = int n + 32768" by (rule mod_pos_pos_trivial)
  then show ?thesis unfolding sint_of_nat_16 by simp
qed

lemma sint_of_nat_16_large:
  assumes "32768 \<le> n" "n < 65536"
  shows "sint (of_nat n :: 16 word) = int n - 65536"
proof -
  have "(int n + 32768) mod 65536 = ((int n - 32768) + 65536) mod 65536"
    by (rule arg_cong [where f = "\<lambda>x. x mod 65536"]) simp
  also have "\<dots> = (int n - 32768) mod 65536" by (rule mod_add_self2)
  also have "\<dots> = int n - 32768" using assms by (intro mod_pos_pos_trivial) simp_all
  finally show ?thesis unfolding sint_of_nat_16 by simp
qed

subsection \<open>The feedback decoder, branch by branch\<close>

lemma parse_short:
  "length readb < 6 \<Longrightarrow>
   parseAppleFeedbackMessage readb = Err (ErrorString ''Not enough data in slice'')"
  by (simp add: parseAppleFeedbackMessage_def)

lemma parse_unfold:
  assumes "6 \<le> length readb"
  shows "parseAppleFeedbackMessage readb =
    (if 6 + sint (BigEndian_Uint16 (take 2 (drop 4 readb))) > int (length readb)
     then Err (ErrorString
       ''The Message size for the DeviceToken is bigger than the given buffer'')
     else if sint (BigEndian_Uint16 (take 2 (drop 4 readb))) < 0
     then Panic (SliceBoundsOutOfRange 6 (6 + sint (BigEndian_Uint16 (take 2 (drop 4 readb)))))
     else Ok \<lparr>Time_t = BigEndian_Uint32 (take 4 readb),
              DeviceToken = hex_EncodeToString
                (take (nat (sint (BigEndian_Uint16 (take 2 (drop 4 readb))))) (drop 6 readb))\<rparr>)"
  using assms
  by (simp add: parseAppleFeedbackMessage_def binary_Read_int32_def binary_Read_int16_def
      io_ReadFull_def slice_def nat_add_distrib)

lemma length_feedback_wire: "length (feedback_wire ts tok) = 6 + length tok"
  by (simp add: feedback_wire_def length_u32_be length_u16_be)

lemma feedback_wire_fields:
  "take 4 (feedback_wire ts tok @ rest) = u32_be (unat ts)"
  "take 2 (drop 4 (feedback_wire ts tok @ rest)) = u16_be (length tok)"
  "drop 6 (feedback_wire ts tok @ rest) = tok @ rest"
  by (simp_all add: feedback_wire_def length_u32_be length_u16_be)

lemma parse_feedback_wire:
  assumes "length tok < 32768"
  shows "parseAppleFeedbackMessage (feedback_wire ts tok @ rest) =
         Ok \<lparr>Time_t = ts, DeviceToken = lowercase_hex tok\<rparr>"
proof -
  have len: "6 \<le> length (feedback_wire ts tok @ rest)"
    by (simp add: length_feedback_wire)
  show ?thesis
    unfolding parse_unfold [OF len] feedback_wire_fields Uint16_u16_be Uint32_u32_be
      sint_of_nat_16_small [OF assms] hex_EncodeToString_lowercase
    by (simp add: length_feedback_wire)
qed

lemma parse_feedback_wire_long:
  assumes "32768 \<le> length tok" "length tok < 65536"
  shows "parseAppleFeedbackMessage (feedback_wire ts tok @ rest) =
         Panic (SliceBoundsOutOfRange 6 (int (length tok) - 65530))"
proof -
  have len: "6 \<le> length (feedback_wire ts tok @ rest)"
    by (simp add: length_feedback_wire)
  show ?thesis
    unfolding parse_unfold [OF len] feedback_wire_fields Uint16_u16_be
      sint_of_nat_16_large [OF assms]
    using assms by (simp add: length_feedback_wire)
qed

lemma parse_append:
  assumes "parseAppleFeedbackMessage r = Ok m"
  shows "parseAppleFeedbackMessage (r @ t) = Ok m"
proof -
  have len: "6 \<le> length r"
    using assms by (cases "length r < 6") (simp_all add: parse_short)
  have f: "take 2 (drop 4 (r @ t)) = take 2 (drop 4 r)" "take 4 (r @ t) = take 4 r"
    using len by simp_all
  define sz where "sz = sint (BigEndian_Uint16 (take 2 (drop 4 r)))"
  have fit: "6 + sz \<le> int (length r)" and nonneg: "0 \<le> sz"
    and m: "m = \<lparr>Time_t = BigEndian_Uint32 (take 4 r),
                  DeviceToken = hex_EncodeToString (take (nat sz) (drop 6 r))\<rparr>"
    using assms len unfolding sz_def
    by (simp_all add: parse_unfold split: if_splits)
  have "take (nat sz) (drop 6 (r @ t)) = take (nat sz) (drop 6 r)"
    using fit nonneg len by simp
  moreover have "6 \<le> length (r @ t)" using len by simp
  ultimately show ?thesis
    using fit nonneg m f unfolding sz_def
    by (simp add: parse_unfold)
qed

section \<open>The packet codec\<close>

lemma bwrite_commandOne:
  "bwrite [] [Uint8 1, Uint32 a, Uint32 b, Uint16 c, Bytes token, Uint16 d, Bytes payload] =
     (None, [1] @ BigEndian_PutUint32 a @ BigEndian_PutUint32 b @ BigEndian_PutUint16 c
              @ token @ BigEndian_PutUint16 d @ payload)"
  by simp

lemma createCommandOnePacket_eq:
  "createCommandOnePacket now tid expiration token payload =
     Ok (extended_push_wire tid (expirationTime now expiration) token payload)"
  unfolding createCommandOnePacket_def bwrite_commandOne extended_push_wire_def
    PutUint32_u32_be PutUint16_of_nat
  by simp

text \<open>
  C7. For every transaction id, clock reading, expiration, token and payload the
  extended-push encoder returns, without error, exactly
  \<open>u8 1 | u32 transactionId | u32 expirationEpochSeconds | u16 len(token) | token |
  u16 len(payload) | payload\<close>, every integer in big-endian order. (The two length
  fields hold the lengths truncated to 16 bits, as \<open>uint16(len(...))\<close> does.)
\<close>

theorem createCommandOnePacket_wire:
  "createCommandOnePacket now tid expiration token payload =
     Ok (extended_push_wire tid (expirationTime now expiration) token payload)"
proof -
  have written: "bwrite []
      [Uint8 1, Uint32 tid, Uint32 (expirationTime now expiration),
       Uint16 (of_nat (length token)), Bytes token,
       Uint16 (of_nat (length payload)), Bytes payload] =
      (None, [1] @ BigEndian_PutUint32 tid @ BigEndian_PutUint32 (expirationTime now expiration)
               @ BigEndian_PutUint16 (of_nat (length token)) @ token
               @ BigEndian_PutUint16 (of_nat (length payload)) @ payload)"
    by (rule bwrite_commandOne)
  have ids: "BigEndian_PutUint32 tid = u32_be (unat tid)"
    "BigEndian_PutUint32 (expirationTime now expiration) = u32_be (unat (expirationTime now expiration))"
    by (rule PutUint32_u32_be)+
  have lens: "BigEndian_PutUint16 (of_nat (length token)) = u16_be (length token)"
    "BigEndian_PutUint16 (of_nat (length payload)) = u16_be (length payload)"
    by (rule PutUint16_of_nat)+
  show ?thesis
    unfolding createCommandOnePacket_def written ids lens extended_push_wire_def
    by simp
qed

section \<open>The feedback decoder\<close>

text \<open>
  C3. The decoder reads the token length into a signed 16-bit integer. On the six
  bytes \<open>00 00 00 00 FF FF\<close> the unsigned length 65535 exceeds the 0 bytes that follow
  the header, yet the length check passes (the signed value is -1) and the slice
  \<open>readb[6:5]\<close> panics: no error is returned and the buffer is accessed out of range.
\<close>

theorem parse_length_ffff_panics:
  "6 + unat (BigEndian_Uint16 (take 2 (drop 4 [0, 0, 0, 0, 0xFF, 0xFF :: byte])))
     > length [0, 0, 0, 0, 0xFF, 0xFF :: byte]
   \<and> parseAppleFeedbackMessage [0, 0, 0, 0, 0xFF, 0xFF] = Panic (SliceBoundsOutOfRange 6 5)"
  by (simp add: parseAppleFeedbackMessage_def binary_Read_int32_def binary_Read_int16_def
      io_ReadFull_def BigEndian_Uint16_def BigEndian_Uint32_def slice_def)

text \<open>
  C8. The wire encoding of timestamp 0 with a token of 32768 bytes (a length that fits
  the unsigned 16-bit prefix) does not decode: the decoder reads the length as -32768
  and panics in the slice expression.
\<close>

theorem parse_long_token_panics:
  "parseAppleFeedbackMessage (feedback_wire 0 (replicate 32768 0)) =
     Panic (SliceBoundsOutOfRange 6 (- 32762))"
  using parse_feedback_wire_long [of "replicate 32768 0" 0 "[]"] by simp

section \<open>Sending\<close>

lemma shutdown_Some:
  "tlsconn c = Some h \<Longrightarrow>
   shutdown E (w, c) = (close_reply E w, Close h (close_reply E w) # w, c\<lparr>connected := False\<rparr>)"
  by (simp add: shutdown_def)

lemma shutdown_None: "tlsconn c = None \<Longrightarrow> shutdown E (w, c) = (None, w, c)"
  by (simp add: shutdown_def)

lemma shutdown_tlsconn: "tlsconn (snd (snd (shutdown E (w, c)))) = tlsconn c"
  by (cases "tlsconn c") (simp_all add: shutdown_def)

lemma connect_connected: "connected c \<Longrightarrow> connect E (w, c) = (None, w, c)"
  by (simp add: connect_def)

lemma connect_result_flag:
  "connected (snd (snd (connect E (w, c)))) = (fst (connect E (w, c)) = None)"
  by (cases "tlsconn c")
     (auto simp add: connect_def shutdown_def Let_def split: option.splits)

lemma connect_ok_connected:
  assumes "connect E (w, c) = (None, w1, c1)"
  shows "connected c1"
  using connect_result_flag [of E w c] assms by simp

lemma SendPayload_body_written:
  assumes conn: "connect E (w, c) = (None, w1, c1)"
    and h: "tlsconn c1 = Some h"
    and wr: "write_reply E w1 = None"
    and rd: "\<forall>pkt d. read_reply E (SetReadDeadline h d # Write h pkt None # w1) = (data, rerr)"
  shows "\<exists>pkt d. SendPayload_body E token payload expiration (w, c) =
     ((case rerr of
         Some err \<Rightarrow> if is_timeout err then Ok () else Err err
       | None \<Rightarrow> response_status (take 6 data)),
      Read h (take 6 data) rerr # SetReadDeadline h d # Write h pkt None # w1,
      c1\<lparr>transactionId := transactionId c1 + 1\<rparr>)"
  using conn h wr rd
  by (simp add: SendPayload_body_def createCommandOnePacket_eq Let_def split: option.splits)

text \<open>
  C5. A payload longer than \<open>MAX_PAYLOAD_SIZE\<close> is rejected at once with the
  payload-too-large error: no event is recorded (no dial, handshake, write, read or
  close) and the client, its \<open>connected\<close> flag and transaction counter included, is
  unchanged.
\<close>

theorem SendPayload_too_large:
  assumes "int (length payload) > MAX_PAYLOAD_SIZE c"
  shows "SendPayload E token payload expiration (w, c) =
           (Err (payload_too_large (MAX_PAYLOAD_SIZE c)), w, c)"
  using assms by (simp add: SendPayload_def)

theorem SendPayload_too_large_witness:
  "int (length (replicate 257 (0 :: byte))) > MAX_PAYLOAD_SIZE NewClient
   \<and> SendPayload env_silent [] (replicate 257 0) 0 ([], NewClient) =
       (Err (ErrorString ''The payload exceeds maximum allowed%!(EXTRA int=256)''),
        [], NewClient)"
proof -
  have big: "int (length (replicate 257 (0 :: byte))) > MAX_PAYLOAD_SIZE NewClient"
    by (simp add: NewClient_def)
  have msg: "payload_too_large (MAX_PAYLOAD_SIZE NewClient) =
      ErrorString ''The payload exceeds maximum allowed%!(EXTRA int=256)''"
    by (simp add: payload_too_large_def fmt_int_def NewClient_def decimal.simps)
  show ?thesis
    using big SendPayload_too_large [OF big, of env_silent "[]" 0 "[]"] msg by simp
qed

text \<open>
  C4. When the payload is not too large, \<open>connect\<close> succeeds, the write succeeds and the
  read that follows fails with a timeout and no bytes, \<open>SendPayload\<close> returns nil; the
  client is still connected on the same handle and no \<open>Close\<close> has been issued since
  \<open>connect\<close> returned.
\<close>

theorem SendPayload_timeout_is_success:
  assumes size: "int (length payload) \<le> MAX_PAYLOAD_SIZE c"
    and conn: "connect E (w, c) = (None, w1, c1)"
    and h: "tlsconn c1 = Some h"
    and wr: "write_reply E w1 = None"
    and rd: "\<forall>pkt d. read_reply E (SetReadDeadline h d # Write h pkt None # w1) = ([], Some e)"
    and tmo: "is_timeout e"
  shows "fst (SendPayload E token payload expiration (w, c)) = Ok ()
       \<and> connected (snd (snd (SendPayload E token payload expiration (w, c))))
       \<and> tlsconn (snd (snd (SendPayload E token payload expiration (w, c)))) = Some h
       \<and> filter is_Close (fst (snd (SendPayload E token payload expiration (w, c))))
           = filter is_Close w1"
proof -
  have c1: "connected c1" using conn by (rule connect_ok_connected)
  obtain pkt d where
    "SendPayload_body E token payload expiration (w, c) =
       (Ok (), Read h [] (Some e) # SetReadDeadline h d # Write h pkt None # w1,
        c1\<lparr>transactionId := transactionId c1 + 1\<rparr>)"
    using SendPayload_body_written [OF conn h wr rd, of token payload expiration] tmo
    by auto
  then show ?thesis
    using size c1 h by (simp add: SendPayload_def)
qed

theorem SendPayload_timeout_is_success_witness:
  "fst (SendPayload env_silent [0xAA] [1, 2] 0 ([], NewClient)) = Ok ()
   \<and> connected (snd (snd (SendPayload env_silent [0xAA] [1, 2] 0 ([], NewClient))))
   \<and> tlsconn (snd (snd (SendPayload env_silent [0xAA] [1, 2] 0 ([], NewClient)))) = Some 0
   \<and> filter is_Close (fst (snd (SendPayload env_silent [0xAA] [1, 2] 0 ([], NewClient))))
       = []"
proof -
  have size: "int (length [1, 2 :: byte]) \<le> MAX_PAYLOAD_SIZE NewClient"
    by (simp add: NewClient_def)
  have conn: "connect env_silent ([], NewClient) =
      (None, [Handshake 0 None, Dial None], NewClient\<lparr>tlsconn := Some 0, connected := True\<rparr>)"
    by (simp add: connect_def env_silent_def peer_def NewClient_def)
  have h: "tlsconn (NewClient\<lparr>tlsconn := Some 0, connected := True\<rparr>) = Some 0" by simp
  have wr: "write_reply env_silent [Handshake 0 None, Dial None] = None"
    by (simp add: env_silent_def peer_def)
  have rd: "\<forall>pkt d. read_reply env_silent
      (SetReadDeadline 0 d # Write 0 pkt None # [Handshake 0 None, Dial None])
        = ([], Some (NetError True))"
    by (simp add: env_silent_def peer_def)
  have tmo: "is_timeout (NetError True)" by simp
  show ?thesis
    using SendPayload_timeout_is_success [OF size conn h wr rd tmo, of "[0xAA]" 0] by simp
qed

lemma response_status_enumerated:
  assumes "2 \<le> length data" "data ! 1 \<in> {1, 2, 3, 4, 5, 6, 7, 8, 255}"
  shows "response_status (take 6 data) = Err (ErrorString (errText_index (data ! 1)))"
  using assms by (auto simp add: response_status_def Let_def)

lemma errText_index_values:
  "errText_index 1 = ''Processing Errors''"
  "errText_index 2 = ''Missing Device Token''"
  "errText_index 3 = ''Missing Topic''"
  "errText_index 4 = ''Missing Payload''"
  "errText_index 5 = ''Invalid Token Size''"
  "errText_index 6 = ''Invalid Topic Size''"
  "errText_index 7 = ''Invalid Payload Size''"
  "errText_index 8 = ''Invalid Token''"
  "errText_index 255 = ''None (Unknown)''"
  by (simp_all add: errText_index_def errText_def)

text \<open>
  C2, as the code has it. When the payload is not too large, \<open>connect\<close> and the write
  succeed and the read returns, without error, at least two bytes whose status byte is
  one of 1..8 or 255, \<open>SendPayload\<close> returns the rejection of that status, and its
  deferred function shuts the connection down: the last event is \<open>Close\<close> on the
  handle, which stays in \<open>tlsconn\<close>, and the \<open>connected\<close> flag is false.
\<close>

theorem SendPayload_rejection_shuts_down:
  assumes size: "int (length payload) \<le> MAX_PAYLOAD_SIZE c"
    and conn: "connect E (w, c) = (None, w1, c1)"
    and h: "tlsconn c1 = Some h"
    and wr: "write_reply E w1 = None"
    and rd: "\<forall>pkt d. read_reply E (SetReadDeadline h d # Write h pkt None # w1) = (data, None)"
    and len: "2 \<le> length data"
    and st: "data ! 1 \<in> {1, 2, 3, 4, 5, 6, 7, 8, 255}"
  shows "fst (SendPayload E token payload expiration (w, c))
           = Err (ErrorString (errText_index (data ! 1)))
       \<and> \<not> connected (snd (snd (SendPayload E token payload expiration (w, c))))
       \<and> tlsconn (snd (snd (SendPayload E token payload expiration (w, c)))) = Some h
       \<and> closes h (hd (fst (snd (SendPayload E token payload expiration (w, c)))))"
proof -
  obtain pkt d where
    "SendPayload_body E token payload expiration (w, c) =
       (Err (ErrorString (errText_index (data ! 1))),
        Read h (take 6 data) None # SetReadDeadline h d # Write h pkt None # w1,
        c1\<lparr>transactionId := transactionId c1 + 1\<rparr>)"
    using SendPayload_body_written [OF conn h wr rd, of token payload expiration]
      response_status_enumerated [OF len st]
    by auto
  then show ?thesis
    using size h by (simp add: SendPayload_def shutdown_Some)
qed

theorem SendPayload_rejection_shuts_down_witness:
  "fst (SendPayload (env_reject 8) [0xAA] [1, 2] 0 ([], NewClient))
     = Err (ErrorString ''Invalid Token'')
   \<and> \<not> connected (snd (snd (SendPayload (env_reject 8) [0xAA] [1, 2] 0 ([], NewClient))))
   \<and> tlsconn (snd (snd (SendPayload (env_reject 8) [0xAA] [1, 2] 0 ([], NewClient)))) = Some 0
   \<and> closes 0 (hd (fst (snd (SendPayload (env_reject 8) [0xAA] [1, 2] 0 ([], NewClient)))))"
proof -
  have size: "int (length [1, 2 :: byte]) \<le> MAX_PAYLOAD_SIZE NewClient"
    by (simp add: NewClient_def)
  have conn: "connect (env_reject 8) ([], NewClient) =
      (None, [Handshake 0 None, Dial None], NewClient\<lparr>tlsconn := Some 0, connected := True\<rparr>)"
    by (simp add: connect_def env_reject_def peer_def NewClient_def)
  have h: "tlsconn (NewClient\<lparr>tlsconn := Some 0, connected := True\<rparr>) = Some 0" by simp
  have wr: "write_reply (env_reject 8) [Handshake 0 None, Dial None] = None"
    by (simp add: env_reject_def peer_def)
  have rd: "\<forall>pkt d. read_reply (env_reject 8)
      (SetReadDeadline 0 d # Write 0 pkt None # [Handshake 0 None, Dial None])
        = ([8, 8, 0, 0, 0, 1], None)"
    by (simp add: env_reject_def peer_def)
  have len: "2 \<le> length [8, 8, 0, 0, 0, 1 :: byte]" by simp
  have st: "[8, 8, 0, 0, 0, 1 :: byte] ! 1 \<in> {1, 2, 3, 4, 5, 6, 7, 8, 255}" by simp
  show ?thesis
    using SendPayload_rejection_shuts_down [OF size conn h wr rd len st, of "[0xAA]" 0]
    by (simp add: errText_index_values)
qed

text \<open>
  C2, as the claim states it, fails: after the peer answers status 8 to a fresh
  client's first packet the rejection is returned, but \<open>shutdown\<close> has run (the
  newest event is \<open>Close\<close> on the connection) and the \<open>connected\<close> flag is false.
\<close>

theorem SendPayload_rejection_keeps_open_counterexample:
  "fst (SendPayload (env_reject 8) [] [] 0 ([], NewClient)) = Err (ErrorString ''Invalid Token'')
   \<and> hd (fst (snd (SendPayload (env_reject 8) [] [] 0 ([], NewClient)))) = Close 0 None
   \<and> connected (snd (snd (SendPayload (env_reject 8) [] [] 0 ([], NewClient)))) \<noteq> True"
  by (simp add: SendPayload_def SendPayload_body_def connect_def shutdown_def env_reject_def
      peer_def NewClient_def createCommandOnePacket_eq response_status_def
      errText_index_values Let_def)

text \<open>
  C6. When the payload is not too large, \<open>connect\<close> and the write succeed and the read
  returns, without error, a frame of at least two bytes, the result is decided by the
  status byte: 0 is success, 8 is the rejection \<open>Invalid Token\<close>, 255 is
  \<open>None (Unknown)\<close>, 1 to 7 give their table messages, and any other status gives the
  unknown-status error whose message holds the lowercase hex of the bytes read (at
  most the six bytes of the read buffer).
\<close>

theorem SendPayload_status_messages:
  assumes size: "int (length payload) \<le> MAX_PAYLOAD_SIZE c"
    and conn: "connect E (w, c) = (None, w1, c1)"
    and h: "tlsconn c1 = Some h"
    and wr: "write_reply E w1 = None"
    and rd: "\<forall>pkt d. read_reply E (SetReadDeadline h d # Write h pkt None # w1) = (data, None)"
    and len: "2 \<le> length data"
  shows "fst (SendPayload E token payload expiration (w, c)) =
     (if data ! 1 = 0 then Ok ()
      else if data ! 1 = 8 then Err (ErrorString ''Invalid Token'')
      else if data ! 1 = 255 then Err (ErrorString ''None (Unknown)'')
      else if data ! 1 = 1 then Err (ErrorString ''Processing Errors'')
      else if data ! 1 = 2 then Err (ErrorString ''Missing Device Token'')
      else if data ! 1 = 3 then Err (ErrorString ''Missing Topic'')
      else if data ! 1 = 4 then Err (ErrorString ''Missing Payload'')
      else if data ! 1 = 5 then Err (ErrorString ''Invalid Token Size'')
      else if data ! 1 = 6 then Err (ErrorString ''Invalid Topic Size'')
      else if data ! 1 = 7 then Err (ErrorString ''Invalid Payload Size'')
      else Err (ErrorString (''Unknown error code '' @ lowercase_hex (take 6 data) @ '' '')))"
proof -
  obtain pkt d where body:
    "SendPayload_body E token payload expiration (w, c) =
       (response_status (take 6 data),
        Read h (take 6 data) None # SetReadDeadline h d # Write h pkt None # w1,
        c1\<lparr>transactionId := transactionId c1 + 1\<rparr>)"
    using SendPayload_body_written [OF conn h wr rd, of token payload expiration]
    by auto
  have fst_send: "fst (SendPayload E token payload expiration (w, c)) = response_status (take 6 data)"
    using size body by (cases "response_status (take 6 data)") (simp_all add: SendPayload_def)
  have "response_status (take 6 data) =
     (if data ! 1 = 0 then Ok ()
      else if data ! 1 \<in> {1, 2, 3, 4, 5, 6, 7, 8, 255}
      then Err (ErrorString (errText_index (data ! 1)))
      else Err (ErrorString (''Unknown error code '' @ lowercase_hex (take 6 data) @ '' '')))"
    using len by (simp add: response_status_def Let_def hex_EncodeToString_lowercase)
  then show ?thesis
    unfolding fst_send by (auto simp add: errText_index_values)
qed

theorem SendPayload_status_messages_witness:
  "fst (SendPayload (env_reject 9) [0xAA] [1, 2] 0 ([], NewClient))
     = Err (ErrorString ''Unknown error code 080900000001 '')"
proof -
  have size: "int (length [1, 2 :: byte]) \<le> MAX_PAYLOAD_SIZE NewClient"
    by (simp add: NewClient_def)
  have conn: "connect (env_reject 9) ([], NewClient) =
      (None, [Handshake 0 None, Dial None], NewClient\<lparr>tlsconn := Some 0, connected := True\<rparr>)"
    by (simp add: connect_def env_reject_def peer_def NewClient_def)
  have h: "tlsconn (NewClient\<lparr>tlsconn := Some 0, connected := True\<rparr>) = Some 0" by simp
  have wr: "write_reply (env_reject 9) [Handshake 0 None, Dial None] = None"
    by (simp add: env_reject_def peer_def)
  have rd: "\<forall>pkt d. read_reply (env_reject 9)
      (SetReadDeadline 0 d # Write 0 pkt None # [Handshake 0 None, Dial None])
        = ([8, 9, 0, 0, 0, 1], None)"
    by (simp add: env_reject_def peer_def)
  have len: "2 \<le> length [8, 9, 0, 0, 0, 1 :: byte]" by simp
  have hex: "lowercase_hex [8, 9, 0, 0, 0, 1] = ''080900000001''"
    by (simp add: lowercase_hex_def hex_digit_def)
  show ?thesis
    using SendPayload_status_messages [OF size conn h wr rd len, of "[0xAA]" 0] hex
    by simp
qed

section \<open>The connection invariant\<close>

lemma handshake_succeeded_Cons:
  "handshake_succeeded h (ev # w) = (ev = Handshake h None \<or> handshake_succeeded h w)"
  by (auto simp add: handshake_succeeded_def)

lemma closed_Cons: "closed h (ev # w) = (closes h ev \<or> closed h w)"
  by (simp add: closed_def)

lemma flag_iff_open_handle_pair:
  "flag_iff_open_handle (w, c) =
     (connected c =
        (case tlsconn c of None \<Rightarrow> False
         | Some h \<Rightarrow> handshake_succeeded h w \<and> \<not> closed h w))"
  by (simp add: flag_iff_open_handle_def split: option.split)

lemma handles_below_pair:
  "handles_below (w, c) =
     ((\<forall>ev \<in> set w. case event_handle ev of None \<Rightarrow> True | Some h \<Rightarrow> h < length w)
      \<and> (case tlsconn c of None \<Rightarrow> True | Some h \<Rightarrow> h < length w))"
  by (simp add: handles_below_def split: option.split)

lemma state_inv_pair: "state_inv (w, c) = (flag_iff_open_handle (w, c) \<and> handles_below (w, c))"
  by (simp add: state_inv_def)

lemma handles_below_fresh:
  assumes "handles_below (w, c)"
  shows "\<not> handshake_succeeded (length w) w" and "\<not> closed (length w) w"
proof -
  have "\<forall>ev \<in> set w. event_handle ev \<noteq> Some (length w)"
    using assms by (auto simp add: handles_below_pair split: option.splits)
  moreover have "event_handle (Handshake (length w) None) = Some (length w)" by simp
  ultimately show "\<not> handshake_succeeded (length w) w"
    unfolding handshake_succeeded_def by blast
  have "\<And>ev. closes (length w) ev \<Longrightarrow> event_handle ev = Some (length w)"
    by (case_tac ev) simp_all
  with \<open>\<forall>ev \<in> set w. event_handle ev \<noteq> Some (length w)\<close>
  show "\<not> closed (length w) w"
    unfolding closed_def list_ex_iff by blast
qed

lemma state_inv_fresh: "state_inv ([], NewClient)"
  by (simp add: state_inv_pair flag_iff_open_handle_pair handles_below_pair NewClient_def)

lemma state_inv_shutdown:
  assumes "state_inv (w, c)"
  shows "state_inv (snd (shutdown E (w, c)))"
proof (cases "tlsconn c")
  case None
  then show ?thesis using assms by (simp add: shutdown_None)
next
  case (Some h)
  have "handles_below (Close h (close_reply E w) # w, c\<lparr>connected := False\<rparr>)"
    using assms Some
    by (auto simp add: state_inv_pair handles_below_pair less_Suc_eq split: option.splits)
  then show ?thesis
    using Some
    by (simp add: shutdown_Some state_inv_pair flag_iff_open_handle_pair closed_Cons)
qed

lemma state_inv_dial:
  assumes inv: "state_inv (w, c)" and off: "\<not> connected c"
  shows "state_inv
     (case dial_reply E w of
        Some err \<Rightarrow> (Dial (Some err) # w, c)
      | None \<Rightarrow>
          (Handshake (length w) (handshake_reply E (Dial None # w)) # Dial None # w,
           if handshake_reply E (Dial None # w) = None
           then c\<lparr>tlsconn := Some (length w), connected := True\<rparr>
           else c\<lparr>tlsconn := Some (length w)\<rparr>))"
proof (cases "dial_reply E w")
  case (Some err)
  have "handles_below (Dial (Some err) # w, c)"
    using inv by (auto simp add: state_inv_pair handles_below_pair less_Suc_eq split: option.splits)
  moreover have "flag_iff_open_handle (Dial (Some err) # w, c)"
    using inv
    by (auto simp add: state_inv_pair flag_iff_open_handle_pair handshake_succeeded_Cons closed_Cons
        split: option.splits)
  ultimately show ?thesis using Some by (simp add: state_inv_pair)
next
  case None
  have below: "handles_below (w, c)" using inv by (simp add: state_inv_pair)
  note fresh = handles_below_fresh [OF below]
  let ?w = "Handshake (length w) (handshake_reply E (Dial None # w)) # Dial None # w"
  have hb: "\<And>c'. tlsconn c' = Some (length w) \<Longrightarrow> handles_below (?w, c')"
    using below by (auto simp add: handles_below_pair less_Suc_eq split: option.splits)
  show ?thesis
  proof (cases "handshake_reply E (Dial None # w)")
    case ok: None
    have "flag_iff_open_handle (?w, c\<lparr>tlsconn := Some (length w), connected := True\<rparr>)"
      using fresh ok
      by (simp add: flag_iff_open_handle_pair handshake_succeeded_Cons closed_Cons)
    then show ?thesis
      using None ok hb [of "c\<lparr>tlsconn := Some (length w), connected := True\<rparr>"]
      by (simp add: state_inv_pair)
  next
    case (Some e)
    have "flag_iff_open_handle (?w, c\<lparr>tlsconn := Some (length w)\<rparr>)"
      using fresh Some off
      by (simp add: flag_iff_open_handle_pair handshake_succeeded_Cons closed_Cons)
    then show ?thesis
      using None Some hb [of "c\<lparr>tlsconn := Some (length w)\<rparr>"]
      by (simp add: state_inv_pair)
  qed
qed

lemma connect_unfold:
  "\<not> connected c \<Longrightarrow>
   snd (connect E (w, c)) =
     (case (if tlsconn c \<noteq> None then snd (shutdown E (w, c)) else (w, c)) of
        (w1, c1) \<Rightarrow>
          (case dial_reply E w1 of
             Some err \<Rightarrow> (Dial (Some err) # w1, c1)
           | None \<Rightarrow>
               (Handshake (length w1) (handshake_reply E (Dial None # w1)) # Dial None # w1,
                if handshake_reply E (Dial None # w1) = None
                then c1\<lparr>tlsconn := Some (length w1), connected := True\<rparr>
                else c1\<lparr>tlsconn := Some (length w1)\<rparr>)))"
  by (cases "tlsconn c") (simp_all add: connect_def shutdown_def Let_def split: option.splits)

lemma shutdown_not_connected:
  "\<not> connected c \<Longrightarrow> \<not> connected (snd (snd (shutdown E (w, c))))"
  by (cases "tlsconn c") (simp_all add: shutdown_def)

lemma state_inv_connect:
  assumes inv: "state_inv (w, c)"
  shows "state_inv (snd (connect E (w, c)))"
proof (cases "connected c")
  case True
  then show ?thesis using inv by (simp add: connect_connected)
next
  case False
  obtain w1 c1 where s1: "(if tlsconn c \<noteq> None then snd (shutdown E (w, c)) else (w, c)) = (w1, c1)"
    by (cases "if tlsconn c \<noteq> None then snd (shutdown E (w, c)) else (w, c)")
  have inv1: "state_inv (w1, c1)"
    using s1 inv state_inv_shutdown [OF inv, of E] by (auto split: if_splits)
  have off1: "\<not> connected c1"
    using s1 False shutdown_not_connected [OF False, of E w] by (auto split: if_splits)
  show ?thesis
    unfolding connect_unfold [OF False] s1
    using state_inv_dial [OF inv1 off1, of E] by simp
qed

lemma state_inv_events:
  assumes inv: "state_inv (w, c)" and quiet: "\<forall>ev \<in> set evs. event_handle ev = None"
  shows "state_inv (evs @ w, c\<lparr>transactionId := t\<rparr>)"
  using quiet
proof (induction evs)
  case Nil
  show ?case
    using inv by (simp add: state_inv_pair flag_iff_open_handle_pair handles_below_pair)
next
  case (Cons ev evs)
  then have IH: "state_inv (evs @ w, c\<lparr>transactionId := t\<rparr>)" and ev: "event_handle ev = None"
    by simp_all
  have "handshake_succeeded h (ev # evs @ w) = handshake_succeeded h (evs @ w)" for h
    using ev by (cases ev) (auto simp add: handshake_succeeded_Cons)
  moreover have "closed h (ev # evs @ w) = closed h (evs @ w)" for h
    using ev by (cases ev) (auto simp add: closed_Cons)
  moreover have "handles_below (ev # evs @ w, c\<lparr>transactionId := t\<rparr>)"
    using IH ev by (auto simp add: state_inv_pair handles_below_pair less_Suc_eq split: option.splits)
  ultimately show ?case
    using IH by (simp add: state_inv_pair flag_iff_open_handle_pair split: option.split)
qed

lemma SendPayload_body_shape:
  "\<exists>evs t. (\<forall>ev \<in> set evs. event_handle ev = None) \<and>
     snd (SendPayload_body E token payload expiration s) =
       (evs @ fst (snd (connect E s)), (snd (snd (connect E s)))\<lparr>transactionId := t\<rparr>)"
proof -
  obtain r w1 c1 where conn: "connect E s = (r, w1, c1)" by (cases "connect E s")
  show ?thesis
  proof (cases r)
    case (Some err)
    then have "snd (SendPayload_body E token payload expiration s) =
        ([] @ w1, c1\<lparr>transactionId := transactionId c1\<rparr>)"
      using conn by (simp add: SendPayload_body_def)
    then show ?thesis using conn by (metis empty_iff fst_conv list.set(1) snd_conv)
  next
    case None
    show ?thesis
    proof (cases "tlsconn c1")
      case no: None
      then have "snd (SendPayload_body E token payload expiration s) =
          ([] @ w1, c1\<lparr>transactionId := transactionId c1 + 1\<rparr>)"
        using conn None by (simp add: SendPayload_body_def createCommandOnePacket_eq)
      then show ?thesis using conn by (metis empty_iff fst_conv list.set(1) snd_conv)
    next
      case (Some h)
      let ?pkt = "extended_push_wire (transactionId c1 + 1)
                    (expirationTime (now_reply E w1) expiration) token payload"
      let ?w2 = "Write h ?pkt (write_reply E w1) # w1"
      let ?w3 = "SetReadDeadline h (Some (now_reply E ?w2 + ReadTimeout c1)) # ?w2"
      have "snd (SendPayload_body E token payload expiration s) =
          ((if write_reply E w1 = None
            then [Read h (take 6 (fst (read_reply E ?w3))) (snd (read_reply E ?w3)),
                  SetReadDeadline h (Some (now_reply E ?w2 + ReadTimeout c1)),
                  Write h ?pkt (write_reply E w1)]
            else [Write h ?pkt (write_reply E w1)]) @ w1,
           c1\<lparr>transactionId := transactionId c1 + 1\<rparr>)"
        using conn None Some
        by (simp add: SendPayload_body_def createCommandOnePacket_eq Let_def
            split: option.splits)
      moreover have "\<forall>ev \<in> set (if write_reply E w1 = None
            then [Read h (take 6 (fst (read_reply E ?w3))) (snd (read_reply E ?w3)),
                  SetReadDeadline h (Some (now_reply E ?w2 + ReadTimeout c1)),
                  Write h ?pkt (write_reply E w1)]
            else [Write h ?pkt (write_reply E w1)]). event_handle ev = None"
        by simp
      ultimately show ?thesis using conn by (metis fst_conv snd_conv)
    qed
  qed
qed

lemma state_inv_SendPayload_body:
  assumes inv: "state_inv (w, c)"
  shows "state_inv (snd (SendPayload_body E token payload expiration (w, c)))"
proof -
  obtain evs t where quiet: "\<forall>ev \<in> set evs. event_handle ev = None"
    and shape: "snd (SendPayload_body E token payload expiration (w, c)) =
       (evs @ fst (snd (connect E (w, c))), (snd (snd (connect E (w, c))))\<lparr>transactionId := t\<rparr>)"
    using SendPayload_body_shape [of E token payload expiration "(w, c)"] by blast
  have "state_inv (fst (snd (connect E (w, c))), snd (snd (connect E (w, c))))"
    using state_inv_connect [OF inv, of E] by simp
  then show ?thesis
    unfolding shape using quiet by (rule state_inv_events)
qed

lemma state_inv_SendPayload:
  assumes inv: "state_inv (w, c)"
  shows "state_inv (snd (SendPayload E token payload expiration (w, c)))"
proof (cases "int (length payload) > MAX_PAYLOAD_SIZE c")
  case True
  then show ?thesis using inv by (simp add: SendPayload_def)
next
  case False
  obtain r w1 c1 where body: "SendPayload_body E token payload expiration (w, c) = (r, w1, c1)"
    by (cases "SendPayload_body E token payload expiration (w, c)")
  have inv1: "state_inv (w1, c1)"
    using state_inv_SendPayload_body [OF inv, of E token payload expiration] body by simp
  show ?thesis
    using False body inv1 state_inv_shutdown [OF inv1, of E]
    by (cases r) (simp_all add: SendPayload_def)
qed

lemma state_inv_configure:
  assumes "state_inv (w, c)"
  shows "state_inv (w, c\<lparr>ReadTimeout := t, MAX_PAYLOAD_SIZE := m\<rparr>)"
  using assms by (simp add: state_inv_pair flag_iff_open_handle_pair handles_below_pair)

lemma reachable_state_inv: "reachable E s \<Longrightarrow> state_inv s"
proof (induction rule: reachable.induct)
  case fresh
  show ?case by (rule state_inv_fresh)
next
  case (by_connect s)
  then show ?case using state_inv_connect [of "fst s" "snd s" E] by simp
next
  case (by_shutdown s)
  then show ?case using state_inv_shutdown [of "fst s" "snd s" E] by simp
next
  case (by_SendPayload s token payload expiration)
  then show ?case
    using state_inv_SendPayload [of "fst s" "snd s" E token payload expiration] by simp
next
  case (by_configure w client t m)
  from by_configure.IH show ?case by (rule state_inv_configure)
qed

lemma reachable_shutdown_off:
  assumes "reachable E s"
  shows "\<not> connected (snd (snd (shutdown E s)))"
proof -
  obtain w c where s: "s = (w, c)" by (cases s)
  have "flag_iff_open_handle (w, c)"
    using reachable_state_inv [OF assms] s by (simp add: state_inv_pair)
  then show ?thesis
    unfolding s by (cases "tlsconn c") (simp_all add: flag_iff_open_handle_pair shutdown_def)
qed

text \<open>
  C9, as the code has it. In every state reachable from a freshly constructed client
  by \<open>connect\<close>, \<open>shutdown\<close> and \<open>SendPayload\<close>, the \<open>connected\<close> flag is true exactly
  when a stream handle is present, its handshake has succeeded and the client has not
  closed it since. After \<open>shutdown\<close> the flag is false, and after \<open>connect\<close> the flag is
  true exactly when \<open>connect\<close> returned nil, so a failed dial or handshake leaves the
  client disconnected.
\<close>

theorem reachable_flag_iff_open_handle:
  assumes "reachable E s"
  shows "flag_iff_open_handle s
       \<and> \<not> connected (snd (snd (shutdown E s)))
       \<and> connected (snd (snd (connect E s))) = (fst (connect E s) = None)"
proof -
  have "flag_iff_open_handle s"
    using reachable_state_inv [OF assms] by (simp add: state_inv_def)
  moreover have "\<not> connected (snd (snd (shutdown E s)))"
    using assms by (rule reachable_shutdown_off)
  moreover have "connected (snd (snd (connect E s))) = (fst (connect E s) = None)"
    using connect_result_flag [of E "fst s" "snd s"] by simp
  ultimately show ?thesis by simp
qed

theorem reachable_flag_iff_open_handle_witness:
  "reachable env_no_handshake (snd (connect env_no_handshake ([], NewClient)))
   \<and> flag_iff_open_handle (snd (connect env_no_handshake ([], NewClient)))
   \<and> \<not> connected (snd (snd (shutdown env_no_handshake
                                  (snd (connect env_no_handshake ([], NewClient))))))
   \<and> fst (connect env_no_handshake ([], NewClient)) = Some (OtherError ''bad certificate'')
   \<and> \<not> connected (snd (snd (connect env_no_handshake ([], NewClient))))"
proof -
  have r0: "reachable env_no_handshake ([], NewClient)" by (rule reachable.fresh)
  have r1: "reachable env_no_handshake (snd (connect env_no_handshake ([], NewClient)))"
    using r0 by (rule reachable.by_connect)
  have failed: "fst (connect env_no_handshake ([], NewClient)) = Some (OtherError ''bad certificate'')"
    by (simp add: connect_def env_no_handshake_def peer_def NewClient_def Let_def)
  show ?thesis
    using r1 failed reachable_flag_iff_open_handle [OF r1]
      reachable_flag_iff_open_handle [OF r0]
    by simp
qed

text \<open>
  C9, as the claim states it, fails: after a successful \<open>connect\<close> followed by
  \<open>shutdown\<close> the handle is still present and its handshake has succeeded, but the flag
  is false.
\<close>

theorem flag_iff_handle_and_handshake_counterexample:
  "reachable env_silent (snd (shutdown env_silent (snd (connect env_silent ([], NewClient)))))
   \<and> tlsconn (snd (snd (shutdown env_silent (snd (connect env_silent ([], NewClient))))))
       = Some 0
   \<and> handshake_succeeded 0
         (fst (snd (shutdown env_silent (snd (connect env_silent ([], NewClient))))))
   \<and> \<not> connected (snd (snd (shutdown env_silent (snd (connect env_silent ([], NewClient))))))
   \<and> \<not> flag_iff_handle_and_handshake
         (snd (shutdown env_silent (snd (connect env_silent ([], NewClient)))))"
proof -
  have "reachable env_silent (snd (shutdown env_silent (snd (connect env_silent ([], NewClient)))))"
    by (intro reachable.by_shutdown reachable.by_connect reachable.fresh)
  moreover have "snd (shutdown env_silent (snd (connect env_silent ([], NewClient)))) =
      ([Close 0 None, Handshake 0 None, Dial None], NewClient\<lparr>tlsconn := Some 0\<rparr>)"
    by (simp add: connect_def shutdown_def env_silent_def peer_def NewClient_def)
  ultimately show ?thesis
    by (simp add: flag_iff_handle_and_handshake_def handshake_succeeded_def NewClient_def)
qed

section \<open>The feedback poller\<close>

lemma reconnect_done: "3 \<le> count \<Longrightarrow> reconnect E count (w, c, rd) = (None, w, c, rd)"
  by (simp add: reconnect.simps)

text \<open>
  The test \<open>count == 3\<close> sits inside the loop \<open>for count := 0; count < 3\<close>: whatever the
  environment does, the retry loop never panics with its own message.
\<close>

lemma reconnect_never_gives_up:
  "fst (reconnect E count s) \<noteq>
     Some (PanicString ''Failed reconnecting more than 3 times to the feedback service'')"
proof (induction E count s rule: reconnect.induct)
  case (1 E count w client rd)
  show ?case
  proof (cases "count < 3")
    case False
    then show ?thesis by (simp add: reconnect.simps)
  next
    case True
    obtain err w1 client1 where sh: "shutdown E (w, client) = (err, w1, client1)"
      by (cases "shutdown E (w, client)")
    obtain r w2 client2 where co: "connect E (Sleep 30 # w1, client1) = (r, w2, client2)"
      by (cases "connect E (Sleep 30 # w1, client1)")
    show ?thesis
    proof (cases r)
      case None
      then show ?thesis
        using True sh co by (simp add: reconnect.simps [of E count] split: option.splits)
    next
      case (Some e)
      have "fst (reconnect E (count + 1) (w2, client2, rd)) \<noteq>
          Some (PanicString ''Failed reconnecting more than 3 times to the feedback service'')"
        using "1.IH" [OF True sh [symmetric] refl co [symmetric] Some refl] True by simp
      then show ?thesis
        using True sh co Some by (simp add: reconnect.simps [of E count])
    qed
  qed
qed

lemma reconnect_step_eof:
  assumes "count < 3" "tlsconn c = Some h"
  shows "reconnect env_eof count (w, c, rd) =
     reconnect env_eof (count + 1)
       (Dial (Some (OtherError ''connection refused'')) # Close h None # Sleep 30 # Close h None # w,
        c\<lparr>connected := False\<rparr>, rd)"
proof -
  have sh: "shutdown env_eof (w, c) = (None, Close h None # w, c\<lparr>connected := False\<rparr>)"
    using assms by (simp add: shutdown_def env_eof_def peer_def)
  have co: "connect env_eof (Sleep 30 # Close h None # w, c\<lparr>connected := False\<rparr>) =
      (Some (OtherError ''connection refused''),
       Dial (Some (OtherError ''connection refused'')) # Close h None # Sleep 30 # Close h None # w,
       c\<lparr>connected := False\<rparr>)"
    using assms by (simp add: connect_def shutdown_def env_eof_def peer_def)
  show ?thesis
    using assms by (subst reconnect.simps) (simp add: sh co)
qed

lemma reconnect_eof:
  assumes "tlsconn c = Some h"
  shows "reconnect env_eof 0 (w, c, rd) =
     (None,
      [Dial (Some (OtherError ''connection refused'')), Close h None, Sleep 30, Close h None,
       Dial (Some (OtherError ''connection refused'')), Close h None, Sleep 30, Close h None,
       Dial (Some (OtherError ''connection refused'')), Close h None, Sleep 30, Close h None] @ w,
      c\<lparr>connected := False\<rparr>, rd)"
proof -
  have c': "tlsconn (c\<lparr>connected := False\<rparr>) = Some h" using assms by simp
  show ?thesis
    by (simp add: reconnect_step_eof [OF _ assms] reconnect_step_eof [OF _ c'] reconnect_done
        del: One_nat_def)
qed

lemma listen_eof:
  assumes "tlsconn c = Some h"
  shows "fst (listen fuel env_eof (w, c, rd)) = None
       \<and> count_reads (fst (snd (listen fuel env_eof (w, c, rd)))) = count_reads w + fuel
       \<and> count_dials (fst (snd (listen fuel env_eof (w, c, rd)))) = count_dials w + 3 * fuel"
  using assms
proof (induction fuel arbitrary: w c)
  case 0
  show ?case by simp
next
  case (Suc fuel)
  have rd: "read_reply env_eof w = ([], Some IoEOF)" by (simp add: env_eof_def peer_def)
  have c': "tlsconn (c\<lparr>connected := False\<rparr>) = Some h" using Suc.prems by simp
  let ?w = "[Dial (Some (OtherError ''connection refused'')), Close h None, Sleep 30, Close h None,
       Dial (Some (OtherError ''connection refused'')), Close h None, Sleep 30, Close h None,
       Dial (Some (OtherError ''connection refused'')), Close h None, Sleep 30, Close h None]
       @ Read rd [] (Some IoEOF) # w"
  have step: "listen (Suc fuel) env_eof (w, c, rd) = listen fuel env_eof (?w, c\<lparr>connected := False\<rparr>, rd)"
    by (simp add: rd reconnect_eof [OF Suc.prems])
  have "count_reads ?w = count_reads w + 1" "count_dials ?w = count_dials w + 3"
    by (simp_all add: count_reads_def count_dials_def)
  then show ?case
    unfolding step using Suc.IH [OF c', of ?w] by simp
qed

text \<open>
  C1. The peer accepts the first connection, then ends the stream and refuses every
  reconnect. For every number \<open>fuel\<close> of loop iterations the poller has not panicked:
  it has read \<open>fuel\<close> times from the old connection and dialled three times after each
  end-of-stream. After three failed reconnects it neither stops nor signals anything;
  it reads again and starts the next round of reconnects.
\<close>

theorem poller_retries_forever:
  "fst (StartListening fuel env_eof ([], NewClient)) = None
   \<and> count_reads (fst (snd (StartListening fuel env_eof ([], NewClient)))) = fuel
   \<and> count_dials (fst (snd (StartListening fuel env_eof ([], NewClient)))) = 1 + 3 * fuel"
proof -
  have conn: "connect env_eof ([], NewClient) =
      (None, [Handshake 0 None, Dial None], NewClient\<lparr>tlsconn := Some 0, connected := True\<rparr>)"
    by (simp add: connect_def env_eof_def peer_def NewClient_def)
  have start: "StartListening fuel env_eof ([], NewClient) =
      listen fuel env_eof ([SetReadDeadline 0 None, Handshake 0 None, Dial None],
        NewClient\<lparr>tlsconn := Some 0, connected := True\<rparr>, 0)"
    by (simp add: StartListening_def conn)
  have h: "tlsconn (NewClient\<lparr>tlsconn := Some 0, connected := True\<rparr>) = Some 0" by simp
  show ?thesis
    unfolding start
    using listen_eof [OF h, of fuel "[SetReadDeadline 0 None, Handshake 0 None, Dial None]" 0]
    by (simp add: count_reads_def count_dials_def)
qed

subsection \<open>One record for each read\<close>

lemma shutdown_counts:
  "count_reads (fst (snd (shutdown E (w, c)))) = count_reads w"
  "count_sends (fst (snd (shutdown E (w, c)))) = count_sends w"
  by (cases "tlsconn c"; simp add: shutdown_def count_reads_def count_sends_def)+

lemma connect_counts:
  "count_reads (fst (snd (connect E (w, c)))) = count_reads w"
  "count_sends (fst (snd (connect E (w, c)))) = count_sends w"
  by (cases "tlsconn c";
      simp add: connect_def shutdown_def count_reads_def count_sends_def Let_def
        split: option.splits)+

lemma reconnect_counts:
  "count_reads (fst (snd (reconnect E count s))) = count_reads (fst s)
   \<and> count_sends (fst (snd (reconnect E count s))) = count_sends (fst s)"
proof (induction E count s rule: reconnect.induct)
  case (1 E count w client rd)
  show ?case
  proof (cases "count < 3")
    case False
    then show ?thesis by (simp add: reconnect.simps)
  next
    case True
    obtain err w1 client1 where sh: "shutdown E (w, client) = (err, w1, client1)"
      by (cases "shutdown E (w, client)")
    obtain r w2 client2 where co: "connect E (Sleep 30 # w1, client1) = (r, w2, client2)"
      by (cases "connect E (Sleep 30 # w1, client1)")
    have w1: "count_reads w1 = count_reads w" "count_sends w1 = count_sends w"
      using shutdown_counts [of E w client] sh by simp_all
    have w2: "count_reads w2 = count_reads w" "count_sends w2 = count_sends w"
      using connect_counts [of E "Sleep 30 # w1" client1] co w1
      by (simp_all add: count_reads_def count_sends_def)
    show ?thesis
    proof (cases r)
      case None
      then show ?thesis
        using True sh co w2
        by (simp add: reconnect.simps [of E count] count_reads_def count_sends_def
            split: option.splits)
    next
      case (Some e)
      have "count_reads (fst (snd (reconnect E (count + 1) (w2, client2, rd)))) = count_reads w2
          \<and> count_sends (fst (snd (reconnect E (count + 1) (w2, client2, rd)))) = count_sends w2"
        using "1.IH" [OF True sh [symmetric] refl co [symmetric] Some refl] True by simp
      then show ?thesis
        using True sh co Some w2 by (simp add: reconnect.simps [of E count])
    qed
  qed
qed

lemma listen_sends_le_reads:
  "count_sends (fst (snd (listen fuel E (w, c, rd)))) + count_reads w
     \<le> count_reads (fst (snd (listen fuel E (w, c, rd)))) + count_sends w"
proof (induction fuel arbitrary: w c rd)
  case 0
  show ?case by simp
next
  case (Suc fuel)
  let ?readb = "take 38 (fst (read_reply E w))"
  let ?err = "snd (read_reply E w)"
  let ?w1 = "Read rd ?readb ?err # w"
  have w1: "count_reads ?w1 = count_reads w + 1" "count_sends ?w1 = count_sends w"
    by (simp_all add: count_reads_def count_sends_def)
  show ?case
  proof (cases ?err)
    case (Some e)
    show ?thesis
    proof (cases "e = IoEOF")
      case False
      then show ?thesis
        using Some by (simp add: Let_def count_reads_def count_sends_def)
    next
      case True
      obtain p w2 c2 rd2 where re: "reconnect E 0 (?w1, c, rd) = (p, w2, c2, rd2)"
        by (cases "reconnect E 0 (?w1, c, rd)")
      have w2: "count_reads w2 = count_reads w + 1" "count_sends w2 = count_sends w"
        using reconnect_counts [of E 0 "(?w1, c, rd)"] re w1 by simp_all
      show ?thesis
      proof (cases p)
        case None
        then show ?thesis
          using Some True re w2 Suc.IH [of w2 c2 rd2] by (simp add: Let_def)
      next
        case panicked: (Some q)
        then show ?thesis
          using Some True re w2 by (simp add: Let_def)
      qed
    qed
  next
    case None
    show ?thesis
    proof (cases "parseAppleFeedbackMessage ?readb")
      case (Ok m)
      have "count_reads (ChanSend m # ?w1) = count_reads w + 1"
        "count_sends (ChanSend m # ?w1) = count_sends w + 1"
        by (simp_all add: count_reads_def count_sends_def)
      then show ?thesis
        using None Ok Suc.IH [of "ChanSend m # ?w1" c rd] by (simp add: Let_def)
    next
      case (Err e)
      then show ?thesis
        using None by (simp add: Let_def count_reads_def count_sends_def)
    next
      case (Panic p)
      then show ?thesis
        using None by (simp add: Let_def count_reads_def count_sends_def)
    qed
  qed
qed

text \<open>
  C10. When a buffer starts with a record that the decoder accepts on its own, the
  decoder returns that same record whatever bytes follow it. So when a read delivers
  such a record followed by more bytes, a further complete record included, the
  poller's iteration sends the first record only and drops the rest; and over any
  run the poller sends at most one record for each read.
\<close>

theorem trailing_bytes_are_dropped:
  assumes first: "parseAppleFeedbackMessage r = Ok m"
    and fits: "length r \<le> 38"
    and rd: "read_reply E w = (r @ t, None)"
  shows "parseAppleFeedbackMessage (r @ t) = Ok m
       \<and> listen (Suc 0) E (w, c, rd) =
           (None, ChanSend m # Read rd (take 38 (r @ t)) None # w, c)
       \<and> count_sends (fst (snd (listen fuel E (w, c, rd)))) + count_reads w
           \<le> count_reads (fst (snd (listen fuel E (w, c, rd)))) + count_sends w"
proof -
  have "take 38 (r @ t) = r @ take (38 - length r) t" using fits by simp
  then have "parseAppleFeedbackMessage (take 38 (r @ t)) = Ok m"
    using parse_append [OF first] by simp
  then have "listen (Suc 0) E (w, c, rd) =
      (None, ChanSend m # Read rd (take 38 (r @ t)) None # w, c)"
    using rd by (simp add: Let_def)
  then show ?thesis
    using parse_append [OF first, of t] listen_sends_le_reads [of fuel E w c rd] by simp
qed

theorem trailing_bytes_are_dropped_witness:
  "parseAppleFeedbackMessage ([0, 0, 0, 0, 0, 1, 7] @ [0, 0, 0, 0, 0, 1, 8])
     = Ok \<lparr>Time_t = 0, DeviceToken = ''07''\<rparr>
   \<and> listen (Suc 0) (env_feed [0, 0, 0, 0, 0, 1, 7, 0, 0, 0, 0, 0, 1, 8]) ([], NewClient, 0) =
       (None,
        [ChanSend \<lparr>Time_t = 0, DeviceToken = ''07''\<rparr>,
         Read 0 [0, 0, 0, 0, 0, 1, 7, 0, 0, 0, 0, 0, 1, 8] None],
        NewClient)"
proof -
  have first: "parseAppleFeedbackMessage [0, 0, 0, 0, 0, 1, 7]
      = Ok \<lparr>Time_t = 0, DeviceToken = ''07''\<rparr>"
    by (simp add: parseAppleFeedbackMessage_def binary_Read_int32_def binary_Read_int16_def
        io_ReadFull_def BigEndian_Uint16_def BigEndian_Uint32_def slice_def hextable_def)
  have fits: "length [0, 0, 0, 0, 0, 1, 7 :: byte] \<le> 38" by simp
  have rd: "read_reply (env_feed [0, 0, 0, 0, 0, 1, 7, 0, 0, 0, 0, 0, 1, 8]) []
      = ([0, 0, 0, 0, 0, 1, 7] @ [0, 0, 0, 0, 0, 1, 8], None)"
    by (simp add: env_feed_def peer_def)
  show ?thesis
    using trailing_bytes_are_dropped [OF first fits rd, of NewClient 0 0] by simp
qed

end
